theory Spec2Isabelle
  imports Complex_Main "HOL-Library.AList"
begin

section \<open>Numeric block ids\<close>

text \<open>
  Block ids are the keys of \<open>codeMapData.codeMap\<close>. The renumbering and allocation code
  recognises the purely numeric ones with the regular expression \<open>/^\d+$/\<close> (one or more
  ASCII digits), reads them with \<open>parseInt(id, 10)\<close> and writes new ones with
  \<open>String(n)\<close>. Numbers are modelled as exact naturals: the model coincides with the
  JavaScript doubles for every id below \<open>2^53\<close>.
\<close>

definition isDigit :: "char \<Rightarrow> bool" where
  "isDigit c \<longleftrightarrow> c \<in> set ''0123456789''"

definition numericOnly :: "string \<Rightarrow> bool" where
  "numericOnly s \<longleftrightarrow> s \<noteq> [] \<and> list_all isDigit s"

definition digitValue :: "char \<Rightarrow> nat" where
  "digitValue c = length (takeWhile (\<lambda>d. d \<noteq> c) ''0123456789'')"

definition digitChar :: "nat \<Rightarrow> char" where
  "digitChar d = ''0123456789'' ! d"

text \<open>\<open>parseInt(s, 10)\<close> on a string that passed \<open>numericOnly\<close>.\<close>

definition parseInt :: "string \<Rightarrow> nat" where
  "parseInt s = foldl (\<lambda>acc c. 10 * acc + digitValue c) 0 s"

text \<open>\<open>String(n)\<close> for a non-negative integer: its decimal digits, no leading zero.\<close>

fun js_String :: "nat \<Rightarrow> string" where
  "js_String n =
     (if n < 10 then [digitChar n] else js_String (n div 10) @ [digitChar (n mod 10)])"

declare js_String.simps [simp del]

lemma lt10_cases: "d < 10 \<Longrightarrow> d \<in> {0, 1, 2, 3, 4, 5, 6, 7, 8, 9 :: nat}"
  by auto


lemma digitValue_digitChar: "d < 10 \<Longrightarrow> digitValue (digitChar d) = d"
  by (drule lt10_cases) (auto simp: digitValue_def digitChar_def)


lemma parseInt_snoc: "parseInt (s @ [c]) = 10 * parseInt s + digitValue c"
  by (simp add: parseInt_def)

lemma parseInt_js_String: "parseInt (js_String n) = n"
proof (induction n rule: js_String.induct)
  case (1 n)
  show ?case
  proof (cases "n < 10")
    case True
    then show ?thesis
      by (simp add: js_String.simps parseInt_def digitValue_digitChar)
  next
    case False
    with 1 have "parseInt (js_String (n div 10)) = n div 10" by simp
    then show ?thesis using False
      by (subst js_String.simps) (simp add: parseInt_snoc digitValue_digitChar)
  qed
qed

lemma js_String_inject: "js_String a = js_String b \<Longrightarrow> a = b"
  by (metis parseInt_js_String)

section \<open>Data model\<close>

text \<open>
  The interfaces \<open>CodeBlock\<close> and \<open>CodeMapData\<close>. Field names follow the source; the
  geometry fields \<open>x\<close>, \<open>y\<close>, \<open>w\<close>, \<open>h\<close> and the anchor fields carry a prefix, since a
  record field is a global constant. An optional field is an \<open>option\<close>. Coordinates
  are exact real numbers.

  \<open>codeMap\<close> is a JavaScript object used as a dictionary from block id to block. It is
  an association list: \<open>map_of\<close> reads a key, \<open>AList.update\<close> assigns
  (\<open>codeMap[k] = v\<close>) and \<open>AList.delete\<close> removes (\<open>delete codeMap[k]\<close>).
\<close>

record block =
  name :: "string option"
  path :: string
  start_line :: int
  end_line :: int
  block_x :: real
  block_y :: real
  block_w :: real
  block_h :: real

record anchor =
  anchor_block :: string
  anchor_x :: real
  anchor_y :: real

record arrow =
  arrow_from :: anchor
  arrow_to :: anchor
  color :: "string option"
  alpha :: "real option"

type_synonym codeMap = "(string \<times> block) list"

section \<open>Id allocation\<close>













section \<open>Webview state\<close>

text \<open>
  The document as \<open>snapshotState\<close> copies it and as \<open>saveData\<close> posts it: the page
  name, the block map and the arrow list (a missing \<open>arrows\<close> array reads as \<open>[]\<close>).
\<close>

record document =
  page_name :: string
  doc_codeMap :: codeMap
  doc_arrows :: "arrow list"

text \<open>
  A rendered \<open>.code-block\<close> element of \<open>codeBlocks\<close>. \<open>createCodeBlock\<close> sets its inline
  style from the block's \<open>x\<close>, \<open>y\<close>, \<open>w\<close>, \<open>h\<close>; dragging and resizing rewrite the
  style; \<open>saveData\<close> reads the box back. The style sheet gives \<open>.code-block\<close>
  \<open>min-width: 300px\<close> and \<open>min-height: 200px\<close> (with \<open>box-sizing: border-box\<close>), so
  the box read back is never smaller than that.
\<close>

record element =
  style_left :: real
  style_top :: real
  style_width :: real
  style_height :: real

definition rect_width :: "element \<Rightarrow> real" where
  "rect_width e = max (style_width e) 300"

definition rect_height :: "element \<Rightarrow> real" where
  "rect_height e = max (style_height e) 200"

datatype endpoint = From | To

text \<open>
  The script's variables. \<open>pageName\<close> and \<open>codeMap\<close> are the two fields of
  \<open>codeMapData\<close>; \<open>saved\<close> collects the documents posted to the extension host by
  \<open>saveData\<close>, oldest first. An uncaught exception is the result \<open>None\<close>.
\<close>

record state =
  pageName :: string
  codeMap :: codeMap
  arrows :: "arrow list"
  codeBlocks :: "(string \<times> element) list"
  history :: "document list"
  historyIndex :: int
  isApplyingHistory :: bool
  saved :: "document list"
  arrowMode :: bool
  arrowStart :: "anchor option"
  selectedArrowIndex :: int
  editingArrowEndpoint :: "(int \<times> endpoint) option"
  selectedBlockName :: "string option"
  currentArrowColor :: string
  currentArrowAlpha :: real

subsection \<open>Rendering and saving\<close>

definition createCodeBlock :: "block \<Rightarrow> element" where
  "createCodeBlock blockData =
     \<lparr>style_left = block_x blockData, style_top = block_y blockData,
      style_width = block_w blockData, style_height = block_h blockData\<rparr>"

text \<open>
  The first step of the loop of \<open>loadCodeBlocks\<close>: a block without a \<open>name\<close> gets its
  id as name (the reordering of the object's own keys does not show in a record).
\<close>

definition defaultName :: "string \<Rightarrow> block \<Rightarrow> block" where
  "defaultName k blockData =
     (case name blockData of None \<Rightarrow> blockData\<lparr>name := Some k\<rparr> | Some _ \<Rightarrow> blockData)"

definition loadCodeBlocks :: "state \<Rightarrow> state" where
  "loadCodeBlocks s =
     (let m = map (\<lambda>(k, b). (k, defaultName k b)) (codeMap s);
          cb = map (\<lambda>(k, b). (k, createCodeBlock b)) m
      in s\<lparr>codeMap := m, codeBlocks := cb,
            selectedBlockName :=
              (case selectedBlockName s of
                 None \<Rightarrow> None
               | Some n \<Rightarrow> if n = [] \<or> map_of cb n \<noteq> None then Some n else None)\<rparr>)"

text \<open>
  The loop of \<open>saveData\<close> over \<open>codeBlocks\<close>: \<open>codeMapData.codeMap[name].x = x\<close> and so
  on; a rendered block with no entry in \<open>codeMap\<close> is a TypeError.
\<close>

fun saveBlocks :: "(string \<times> element) list \<Rightarrow> codeMap \<Rightarrow> codeMap option" where
  "saveBlocks [] m = Some m"
| "saveBlocks ((k, e) # rest) m =
     (case map_of m k of
        None \<Rightarrow> None
      | Some b \<Rightarrow>
          saveBlocks rest
            (AList.update k
               (b\<lparr>block_x := style_left e, block_y := style_top e,
                  block_w := rect_width e, block_h := rect_height e\<rparr>) m))"

definition saveData :: "state \<Rightarrow> state option" where
  "saveData s =
     (case saveBlocks (codeBlocks s) (codeMap s) of
        None \<Rightarrow> None
      | Some m \<Rightarrow>
          Some (s\<lparr>codeMap := m,
                  saved := saved s @
                    [\<lparr>page_name = pageName s, doc_codeMap = m, doc_arrows = arrows s\<rparr>]\<rparr>))"

subsection \<open>History\<close>

definition snapshotState :: "state \<Rightarrow> document" where
  "snapshotState s =
     \<lparr>page_name = pageName s, doc_codeMap = codeMap s, doc_arrows = arrows s\<rparr>"

text \<open>\<open>xs.slice(0, e)\<close>: a negative end counts from the end of the array.\<close>

definition slice0 :: "'a list \<Rightarrow> int \<Rightarrow> 'a list" where
  "slice0 xs e = (if e < 0 then take (nat (int (length xs) + e)) xs else take (nat e) xs)"

definition recordSnapshot :: "state \<Rightarrow> state" where
  "recordSnapshot s =
     (let h = (if historyIndex s < int (length (history s)) - 1
               then slice0 (history s) (historyIndex s + 1) else history s);
          h' = h @ [snapshotState s]
      in s\<lparr>history := h', historyIndex := int (length h') - 1\<rparr>)"







definition recordAndSave :: "state \<Rightarrow> state option" where
  "recordAndSave s =
     (if isApplyingHistory s then saveData s
      else case saveData s of None \<Rightarrow> None | Some s' \<Rightarrow> Some (recordSnapshot s'))"

text \<open>
  The state the script starts in, for the document \<open>data\<close> interpolated into the page:
  the declarations of the variables, then \<open>loadCodeBlocks(); recordSnapshot();\<close>.
\<close>

definition declared :: "document \<Rightarrow> state" where
  "declared data =
     \<lparr>pageName = page_name data, codeMap = doc_codeMap data, arrows = doc_arrows data,
      codeBlocks = [], history = [], historyIndex = - 1, isApplyingHistory = False,
      saved = [], arrowMode = False, arrowStart = None, selectedArrowIndex = - 1,
      editingArrowEndpoint = None, selectedBlockName = None,
      currentArrowColor = ''#007acc'', currentArrowAlpha = 0.45\<rparr>"

definition initial :: "document \<Rightarrow> state" where
  "initial data = recordSnapshot (loadCodeBlocks (declared data))"

subsection \<open>Block store\<close>

definition deleteBlock :: "string \<Rightarrow> state \<Rightarrow> state option" where
  "deleteBlock blockName s =
     (if map_of (codeMap s) blockName = None then Some s
      else recordAndSave (loadCodeBlocks
             (s\<lparr>codeMap := AList.delete blockName (codeMap s),
                arrows := filter (\<lambda>a. anchor_block (arrow_from a) \<noteq> blockName \<and>
                                       anchor_block (arrow_to a) \<noteq> blockName) (arrows s)\<rparr>)))"

definition getNumericIds :: "codeMap \<Rightarrow> nat list" where
  "getNumericIds m = sort (map parseInt (filter numericOnly (map fst m)))"

text \<open>
  \<open>moveBlockToTop\<close>. A move is \<open>(from, to, data)\<close>. \<open>largerMoves\<close> is the
  \<open>largerIds.forEach((id, index) => ...)\<close> that collects the moves of the larger ids;
  the deep copy of a block that is not in the map (\<open>JSON.parse(JSON.stringify(undefined))\<close>)
  throws.
\<close>

type_synonym move = "string \<times> string \<times> block"





definition deleteMoves :: "move list \<Rightarrow> codeMap \<Rightarrow> codeMap" where
  "deleteMoves moves m = foldl (\<lambda>m (f, t, d). AList.delete f m) m moves"

definition insertMoves :: "move list \<Rightarrow> codeMap \<Rightarrow> codeMap" where
  "insertMoves moves m = foldl (\<lambda>m (f, t, d). AList.update t d m) m moves"


text \<open>
  \<open>moveBlockToBottom\<close>. \<open>retarget\<close> is the arrow loop
  \<open>if (arrow.from.block === a) arrow.from.block = b\<close> (likewise for \<open>to\<close>); \<open>shiftUp\<close>
  is \<open>smallerIds.reverse().forEach(...)\<close>. A block read from a missing key is
  \<open>undefined\<close>; it is stored as such and \<open>loadCodeBlocks\<close> then fails on it with a
  TypeError, so the whole call is \<open>None\<close>.
\<close>

definition retargetAnchor :: "string \<Rightarrow> string \<Rightarrow> anchor \<Rightarrow> anchor" where
  "retargetAnchor a b an = (if anchor_block an = a then an\<lparr>anchor_block := b\<rparr> else an)"

definition retarget :: "string \<Rightarrow> string \<Rightarrow> arrow \<Rightarrow> arrow" where
  "retarget a b ar =
     ar\<lparr>arrow_from := retargetAnchor a b (arrow_from ar),
        arrow_to := retargetAnchor a b (arrow_to ar)\<rparr>"

fun shiftUp :: "nat list \<Rightarrow> codeMap \<times> arrow list \<Rightarrow> (codeMap \<times> arrow list) option" where
  "shiftUp [] ma = Some ma"
| "shiftUp (i # ids) (m, ars) =
     (case map_of m (js_String i) of
        None \<Rightarrow> None
      | Some d \<Rightarrow>
          shiftUp ids
            (AList.delete (js_String i) (AList.update (js_String (i + 1)) d m),
             map (retarget (js_String i) (js_String (i + 1))) ars))"

definition moveBlockToBottom :: "string \<Rightarrow> state \<Rightarrow> state option" where
  "moveBlockToBottom blockId s =
     (if \<not> numericOnly blockId then Some s
      else
        let currentId = parseInt blockId; numericIds = getNumericIds (codeMap s) in
        (case numericIds of
           [] \<Rightarrow> None
         | minId # _ \<Rightarrow>
             if currentId \<le> minId then Some s
             else
               let smallerIds = filter (\<lambda>i. i < currentId) numericIds;
                   tempId = js_String (minId + 1000)
               in
               (case map_of (codeMap s) blockId of
                  None \<Rightarrow> None
                | Some blockData \<Rightarrow>
                    (case shiftUp (rev smallerIds)
                            (AList.delete blockId (AList.update tempId blockData (codeMap s)),
                             map (retarget blockId tempId) (arrows s)) of
                       None \<Rightarrow> None
                     | Some (m2, a2) \<Rightarrow>
                         (case map_of m2 tempId of
                            None \<Rightarrow> None
                          | Some d \<Rightarrow>
                              recordAndSave (loadCodeBlocks
                                (s\<lparr>codeMap :=
                                     AList.delete tempId (AList.update (js_String minId) d m2),
                                   arrows :=
                                     map (retarget tempId (js_String minId)) a2\<rparr>)))))))"

subsection \<open>Geometry\<close>

text \<open>
  What the anchor functions read from the page: the bounding rectangle (viewport
  coordinates) and the scroll offset of the canvas and of the \<open>.code-block-content\<close> of
  every rendered block.
\<close>

record scrollBox =
  rect_left :: real
  rect_top :: real
  scrollLeft :: real
  scrollTop :: real

record view =
  canvas :: scrollBox
  contents :: "(string \<times> scrollBox) list"

text \<open>\<open>v || 0\<close> on a number.\<close>

definition or0 :: "real \<Rightarrow> real" where
  "or0 v = (if v = 0 then 0 else v)"



text \<open>
  \<open>getOffsetsFromClick\<close>: the clicked line is given by the block that contains it,
  whose content element the function looks up.
\<close>

definition getOffsetsFromClick :: "view \<Rightarrow> string \<Rightarrow> real \<Rightarrow> real \<Rightarrow> (real \<times> real) option" where
  "getOffsetsFromClick v blockName clientX clientY =
     (case map_of (contents v) blockName of
        None \<Rightarrow> None
      | Some blockContent \<Rightarrow>
          Some ((clientX - rect_left blockContent) + scrollLeft blockContent,
                (clientY - rect_top blockContent) + scrollTop blockContent))"

subsection \<open>Adding blocks\<close>





subsection \<open>Arrows and selection\<close>

text \<open>\<open>if (a.color)\<close>: a missing colour and the empty string are both falsy.\<close>

definition truthy :: "string option \<Rightarrow> bool" where
  "truthy c = (case c of None \<Rightarrow> False | Some t \<Rightarrow> t \<noteq> [])"

definition selectArrow :: "int \<Rightarrow> state \<Rightarrow> state" where
  "selectArrow index s =
     (if index < 0 \<or> index \<ge> int (length (arrows s)) then s
      else
        let a = arrows s ! nat index;
            s1 = s\<lparr>selectedArrowIndex := index, editingArrowEndpoint := None\<rparr>;
            s2 = (if truthy (color a)
                  then s1\<lparr>currentArrowColor := (case color a of None \<Rightarrow> [] | Some c \<Rightarrow> c)\<rparr>
                  else s1\<lparr>arrows :=
                         (arrows s1)[nat index := a\<lparr>color := Some (currentArrowColor s1)\<rparr>]\<rparr>)
        in s2\<lparr>currentArrowAlpha := (case alpha a of None \<Rightarrow> 1 | Some r \<Rightarrow> r)\<rparr>)"

definition clearArrowSelection :: "state \<Rightarrow> state" where
  "clearArrowSelection s = s\<lparr>selectedArrowIndex := - 1, editingArrowEndpoint := None\<rparr>"

definition updateArrowEndpointTo ::
    "int \<Rightarrow> endpoint \<Rightarrow> string \<Rightarrow> real \<Rightarrow> real \<Rightarrow> state \<Rightarrow> state option" where
  "updateArrowEndpointTo index ep blk xOffset yOffset s =
     (if index < 0 \<or> index \<ge> int (length (arrows s)) then Some s
      else
        let a = arrows s ! nat index;
            an = \<lparr>anchor_block = blk, anchor_x = xOffset, anchor_y = yOffset\<rparr>;
            a' = (case ep of From \<Rightarrow> a\<lparr>arrow_from := an\<rparr> | To \<Rightarrow> a\<lparr>arrow_to := an\<rparr>)
        in recordAndSave (s\<lparr>arrows := (arrows s)[nat index := a']\<rparr>))"

text \<open>
  \<open>handleLineContentClick\<close>. \<open>lineBlock\<close> is \<open>getBlockNameFromLineContent(lineContentEl)\<close>,
  the id of the block that holds the clicked line (\<open>None\<close> for \<open>null\<close>).
\<close>

definition handleLineContentClick ::
    "view \<Rightarrow> string option \<Rightarrow> real \<Rightarrow> real \<Rightarrow> state \<Rightarrow> state option" where
  "handleLineContentClick v lineBlock clientX clientY s =
     (case lineBlock of
        None \<Rightarrow> Some s
      | Some blockName \<Rightarrow>
          if blockName = [] then Some s
          else
            (case getOffsetsFromClick v blockName clientX clientY of
               None \<Rightarrow> Some s
             | Some (xOffset, yOffset) \<Rightarrow>
                 (case arrowStart s of
                    None \<Rightarrow>
                      Some (s\<lparr>arrowStart :=
                        Some \<lparr>anchor_block = blockName, anchor_x = xOffset,
                              anchor_y = yOffset\<rparr>\<rparr>)
                  | Some st \<Rightarrow>
                      if anchor_block st = blockName \<and> or0 (anchor_x st) = xOffset \<and>
                         or0 (anchor_y st) = yOffset
                      then Some s
                      else
                        let ar = \<lparr>arrow_from =
                                    \<lparr>anchor_block = anchor_block st, anchor_x = anchor_x st,
                                     anchor_y = anchor_y st\<rparr>,
                                  arrow_to =
                                    \<lparr>anchor_block = blockName, anchor_x = xOffset,
                                     anchor_y = yOffset\<rparr>,
                                  color = Some (currentArrowColor s),
                                  alpha = Some (currentArrowAlpha s)\<rparr>;
                            s1 = s\<lparr>arrows := arrows s @ [ar]\<rparr>;
                            s2 = selectArrow (int (length (arrows s1)) - 1) s1
                        in (case recordAndSave s2 of
                              None \<Rightarrow> None
                            | Some s3 \<Rightarrow> Some (s3\<lparr>arrowStart := None\<rparr>)))))"

subsection \<open>Interaction controller\<close>

text \<open>The click listener of the arrow tool button.\<close>

definition arrowToolClick :: "state \<Rightarrow> state" where
  "arrowToolClick s =
     (let s1 = s\<lparr>arrowMode := \<not> arrowMode s\<rparr> in
      if arrowMode s1 then s1 else s1\<lparr>arrowStart := None\<rparr>)"


definition clearBlockSelection :: "state \<Rightarrow> state" where
  "clearBlockSelection s = s\<lparr>selectedBlockName := None\<rparr>"




text \<open>
  The click listener of the canvas. The target is either no code line (\<open>Blank\<close>) or a
  \<open>.code-line-content\<close> element, given by the id of its block.
\<close>

datatype target = Blank | LineContent "string option"

definition canvasClick :: "view \<Rightarrow> target \<Rightarrow> real \<Rightarrow> real \<Rightarrow> state \<Rightarrow> state option" where
  "canvasClick v tg clientX clientY s =
     (case editingArrowEndpoint s of
        Some (index, ep) \<Rightarrow>
          (case tg of
             Blank \<Rightarrow> Some (s\<lparr>editingArrowEndpoint := None\<rparr>)
           | LineContent lineBlock \<Rightarrow>
               (case lineBlock of
                  None \<Rightarrow> Some s
                | Some blockName \<Rightarrow>
                    if blockName = [] then Some s
                    else
                      (case getOffsetsFromClick v blockName clientX clientY of
                         None \<Rightarrow> Some s
                       | Some (xOffset, yOffset) \<Rightarrow>
                           updateArrowEndpointTo index ep blockName xOffset yOffset
                             (s\<lparr>editingArrowEndpoint := None\<rparr>))))
      | None \<Rightarrow>
          if \<not> arrowMode s then
            (let s1 = (if selectedArrowIndex s \<noteq> - 1 then clearArrowSelection s else s)
             in Some (if truthy (selectedBlockName s1) then clearBlockSelection s1 else s1))
          else
            (case tg of
               LineContent lineBlock \<Rightarrow> handleLineContentClick v lineBlock clientX clientY s
             | Blank \<Rightarrow> Some s))"

text \<open>The \<open>update\<close> message of the extension host.\<close>

definition updateMessage :: "document \<Rightarrow> state \<Rightarrow> state" where
  "updateMessage data s =
     recordSnapshot (loadCodeBlocks
       (s\<lparr>pageName := page_name data, codeMap := doc_codeMap data,
          arrows := doc_arrows data\<rparr>))"



section \<open>Example documents\<close>

text \<open>
  The blocks and arrows of the worked examples: a block as \<open>addToMapCommand\<close> creates it
  for \<open>a.py\<close>, lines 10 to 20, and an arrow from offset (5, 10) to offset (3, 4).
\<close>

definition exampleBlock :: "string \<Rightarrow> block" where
  "exampleBlock k =
     \<lparr>name = Some k, path = ''a.py'', start_line = 10, end_line = 20,
      block_x = 50, block_y = 50, block_w = 400, block_h = 300\<rparr>"

definition exampleArrow :: "string \<Rightarrow> string \<Rightarrow> arrow" where
  "exampleArrow a b =
     \<lparr>arrow_from = \<lparr>anchor_block = a, anchor_x = 5, anchor_y = 10\<rparr>,
      arrow_to = \<lparr>anchor_block = b, anchor_x = 3, anchor_y = 4\<rparr>,
      color = Some ''#007acc'', alpha = Some 1\<rparr>"

definition exampleDocument :: "string list \<Rightarrow> arrow list \<Rightarrow> document" where
  "exampleDocument ids ars =
     \<lparr>page_name = ''CodeMapFree'', doc_codeMap = map (\<lambda>k. (k, exampleBlock k)) ids,
      doc_arrows = ars\<rparr>"

definition exampleView :: view where
  "exampleView =
     \<lparr>canvas = \<lparr>rect_left = 0, rect_top = 40, scrollLeft = 120, scrollTop = 30\<rparr>,
      contents = [(''1'', \<lparr>rect_left = 52, rect_top = 122, scrollLeft = 15, scrollTop = 60\<rparr>),
                  (''2'', \<lparr>rect_left = 502, rect_top = 122, scrollLeft = 0, scrollTop = 0\<rparr>)]\<rparr>"

section \<open>The allocator\<close>









section \<open>Rendering, saving and recording\<close>

lemma saveBlocks_keys:
  "saveBlocks es m = Some m' \<Longrightarrow> map fst m' = map fst m"
proof (induction es arbitrary: m)
  case Nil
  then show ?case by simp
next
  case (Cons e es)
  obtain k el where e: "e = (k, el)" by (cases e)
  from Cons.prems obtain b where b: "map_of m k = Some b"
    and r: "saveBlocks es (AList.update k
               (b\<lparr>block_x := style_left el, block_y := style_top el,
                  block_w := rect_width el, block_h := rect_height el\<rparr>) m) = Some m'"
    by (auto simp: e split: option.splits)
  from b have "k \<in> fst ` set m" by (auto dest: map_of_SomeD intro: rev_image_eqI)
  then have "map fst (AList.update k
               (b\<lparr>block_x := style_left el, block_y := style_top el,
                  block_w := rect_width el, block_h := rect_height el\<rparr>) m) = map fst m"
    by (simp add: update_keys)
  with Cons.IH [OF r] show ?case by simp
qed

lemma saveBlocks_defined:
  "fst ` set es \<subseteq> fst ` set m \<Longrightarrow> \<exists>m'. saveBlocks es m = Some m'"
proof (induction es arbitrary: m)
  case Nil
  then show ?case by simp
next
  case (Cons e es)
  obtain k el where e: "e = (k, el)" by (cases e)
  from Cons.prems have "k \<in> fst ` set m" by (simp add: e)
  then obtain b where b: "map_of m k = Some b"
    by (metis domD dom_map_of_conv_image_fst)
  let ?m = "AList.update k
               (b\<lparr>block_x := style_left el, block_y := style_top el,
                  block_w := rect_width el, block_h := rect_height el\<rparr>) m"
  have "fst ` set es \<subseteq> fst ` set ?m" using Cons.prems by (auto simp: dom_update e)
  from Cons.IH [OF this] show ?case by (simp add: e b)
qed

lemma loadCodeBlocks_keys [simp]:
  "map fst (codeMap (loadCodeBlocks s)) = map fst (codeMap s)"
  "map fst (codeBlocks (loadCodeBlocks s)) = map fst (codeMap s)"
  by (simp_all add: loadCodeBlocks_def Let_def comp_def case_prod_unfold)

lemma loadCodeBlocks_frame:
  "loadCodeBlocks s = s\<lparr>codeMap := codeMap (loadCodeBlocks s),
      codeBlocks := codeBlocks (loadCodeBlocks s),
      selectedBlockName := selectedBlockName (loadCodeBlocks s)\<rparr>"
  by (simp add: loadCodeBlocks_def Let_def)

lemma saveData_frame:
  "saveData s = Some s' \<Longrightarrow> s' = s\<lparr>codeMap := codeMap s', saved := saved s'\<rparr>"
  by (auto simp: saveData_def split: option.splits)

lemma saveData_keys:
  "saveData s = Some s' \<Longrightarrow> map fst (codeMap s') = map fst (codeMap s)"
  by (auto simp: saveData_def split: option.splits dest: saveBlocks_keys)

lemma saveData_saved:
  "saveData s = Some s' \<Longrightarrow> saved s' = saved s @ [snapshotState s']"
  by (auto simp: saveData_def snapshotState_def split: option.splits)

lemma saveData_loadCodeBlocks: "\<exists>s'. saveData (loadCodeBlocks s) = Some s'"
proof -
  have "fst ` set (codeBlocks (loadCodeBlocks s)) \<subseteq> fst ` set (codeMap (loadCodeBlocks s))"
    using loadCodeBlocks_keys [of s] by (metis order_refl set_map)
  from saveBlocks_defined [OF this] show ?thesis
    by (auto simp: saveData_def)
qed


lemma recordSnapshot_frame:
  "recordSnapshot s = s\<lparr>history := history (recordSnapshot s),
      historyIndex := historyIndex (recordSnapshot s)\<rparr>"
  by (simp add: recordSnapshot_def Let_def)

lemma recordSnapshot_history:
  "history (recordSnapshot s) =
     (if historyIndex s < int (length (history s)) - 1
      then slice0 (history s) (historyIndex s + 1) else history s) @ [snapshotState s]"
  "historyIndex (recordSnapshot s) = int (length (history (recordSnapshot s))) - 1"
  "snapshotState (recordSnapshot s) = snapshotState s"
  by (simp_all add: recordSnapshot_def Let_def snapshotState_def)

lemma recordAndSave_frame:
  "recordAndSave s = Some s' \<Longrightarrow>
   s' = s\<lparr>codeMap := codeMap s', saved := saved s', history := history s',
          historyIndex := historyIndex s'\<rparr>"
  by (auto simp: recordAndSave_def recordSnapshot_def Let_def split: if_splits option.splits
      dest!: saveData_frame)


lemma recordAndSave_loadCodeBlocks:
  assumes "\<not> isApplyingHistory s"
  shows "\<exists>s1. saveData (loadCodeBlocks s) = Some s1 \<and>
           recordAndSave (loadCodeBlocks s) = Some (recordSnapshot s1)"
proof -
  from saveData_loadCodeBlocks obtain s1 where s1: "saveData (loadCodeBlocks s) = Some s1" ..
  have "\<not> isApplyingHistory (loadCodeBlocks s)"
    using assms by (simp add: loadCodeBlocks_def Let_def)
  with s1 show ?thesis by (simp add: recordAndSave_def)
qed


section \<open>Properties of the allocator\<close>






section \<open>The initial state\<close>

lemma initial_simps:
  "arrows (initial d) = doc_arrows d"
  "pageName (initial d) = page_name d"
  "codeMap (initial d) = map (\<lambda>(k, b). (k, defaultName k b)) (doc_codeMap d)"
  "isApplyingHistory (initial d) = False"
  "history (initial d) = [snapshotState (initial d)]"
  "historyIndex (initial d) = 0"
  "saved (initial d) = []"
  by (simp_all add: initial_def declared_def recordSnapshot_def loadCodeBlocks_def Let_def
        snapshotState_def)

lemma exampleBlock_defaultName [simp]: "defaultName k (exampleBlock j) = exampleBlock j"
  by (simp add: defaultName_def exampleBlock_def)

section \<open>Cascading delete\<close>

text \<open>
  C5. For a block id \<open>B\<close> of the document, \<open>deleteBlock(B)\<close> leaves a block map without
  \<open>B\<close> and an arrow list in which no arrow starts or ends at \<open>B\<close> (the arrows that did
  are filtered out, the others stay in order); both removals are made before the one
  \<open>recordAndSave()\<close>, which appends exactly one snapshot, the one of the resulting
  document, after the entries up to the cursor.
\<close>

theorem deleteBlock_cascade:
  assumes present: "map_of (codeMap s) B \<noteq> None" and idle: "\<not> isApplyingHistory s"
  shows "\<exists>s'. deleteBlock B s = Some s' \<and>
           map_of (codeMap s') B = None \<and>
           (\<forall>a \<in> set (arrows s'). anchor_block (arrow_from a) \<noteq> B \<and> anchor_block (arrow_to a) \<noteq> B) \<and>
           map fst (codeMap s') = removeAll B (map fst (codeMap s)) \<and>
           arrows s' = filter (\<lambda>a. anchor_block (arrow_from a) \<noteq> B \<and>
                                     anchor_block (arrow_to a) \<noteq> B) (arrows s) \<and>
           history s' =
             (if historyIndex s < int (length (history s)) - 1
              then slice0 (history s) (historyIndex s + 1) else history s) @ [snapshotState s'] \<and>
           historyIndex s' = int (length (history s')) - 1"
proof -
  let ?s0 = "s\<lparr>codeMap := AList.delete B (codeMap s),
                arrows := filter (\<lambda>a. anchor_block (arrow_from a) \<noteq> B \<and>
                                       anchor_block (arrow_to a) \<noteq> B) (arrows s)\<rparr>"
  have "\<not> isApplyingHistory ?s0" using idle by simp
  from recordAndSave_loadCodeBlocks [OF this] obtain s1
    where s1: "saveData (loadCodeBlocks ?s0) = Some s1"
      and r: "recordAndSave (loadCodeBlocks ?s0) = Some (recordSnapshot s1)" by blast
  let ?s' = "recordSnapshot s1"
  have del: "deleteBlock B s = Some ?s'" using present r by (auto simp: deleteBlock_def)
  have fr1: "s1 = (loadCodeBlocks ?s0)\<lparr>codeMap := codeMap s1, saved := saved s1\<rparr>"
    by (rule saveData_frame [OF s1])
  have keys: "map fst (codeMap s1) = removeAll B (map fst (codeMap s))"
    using saveData_keys [OF s1] by (simp add: delete_keys)
  have ar: "arrows s1 = filter (\<lambda>a. anchor_block (arrow_from a) \<noteq> B \<and>
                                     anchor_block (arrow_to a) \<noteq> B) (arrows s)"
    by (subst fr1) (simp add: loadCodeBlocks_def Let_def)
  have hist: "history s1 = history s" "historyIndex s1 = historyIndex s"
    by (subst fr1, simp add: loadCodeBlocks_def Let_def)+
  have cm: "codeMap ?s' = codeMap s1" "arrows ?s' = arrows s1"
    by (simp_all add: recordSnapshot_def Let_def)
  have "B \<notin> set (map fst (codeMap ?s'))" using keys cm by simp
  then have gone: "map_of (codeMap ?s') B = None" by (simp add: map_of_eq_None_iff)
  show ?thesis
    using del gone keys ar cm hist
    by (intro exI [of _ ?s']) (simp add: recordSnapshot_history)
qed


text \<open>
  The end of the specification's scenario: blocks 1 and 2 joined by one arrow; deleting
  block 1 leaves block 2 and no arrow, and the history holds the loaded document and
  the resulting one.
\<close>

theorem deleteBlock_cascade_witness:
  "map_of (codeMap (initial (exampleDocument [''1'', ''2''] [exampleArrow ''1'' ''2'']))) ''1''
     \<noteq> None
   \<and> \<not> isApplyingHistory (initial (exampleDocument [''1'', ''2''] [exampleArrow ''1'' ''2'']))
   \<and> (\<exists>s'. deleteBlock ''1'' (initial (exampleDocument [''1'', ''2''] [exampleArrow ''1'' ''2'']))
              = Some s'
          \<and> map fst (codeMap s') = [''2''] \<and> arrows s' = []
          \<and> history s' =
               [snapshotState (initial (exampleDocument [''1'', ''2''] [exampleArrow ''1'' ''2''])),
                snapshotState s']
          \<and> historyIndex s' = 1)"
proof -
  let ?S = "initial (exampleDocument [''1'', ''2''] [exampleArrow ''1'' ''2''])"
  have p: "map_of (codeMap ?S) ''1'' \<noteq> None"
    by (simp add: initial_simps exampleDocument_def)
  have i: "\<not> isApplyingHistory ?S" by (simp add: initial_simps)
  have k: "map fst (codeMap ?S) = [''1'', ''2'']"
    by (simp add: initial_simps exampleDocument_def)
  have a: "arrows ?S = [exampleArrow ''1'' ''2'']"
    by (simp add: initial_simps exampleDocument_def)
  have h: "history ?S = [snapshotState ?S]" "historyIndex ?S = 0"
    by (simp_all add: initial_simps)
  from deleteBlock_cascade [OF p i] obtain s' where
    "deleteBlock ''1'' ?S = Some s'"
    "map fst (codeMap s') = removeAll ''1'' (map fst (codeMap ?S))"
    "arrows s' = filter (\<lambda>a. anchor_block (arrow_from a) \<noteq> ''1'' \<and>
                              anchor_block (arrow_to a) \<noteq> ''1'') (arrows ?S)"
    "history s' =
       (if historyIndex ?S < int (length (history ?S)) - 1
        then slice0 (history ?S) (historyIndex ?S + 1) else history ?S) @ [snapshotState s']"
    "historyIndex s' = int (length (history s')) - 1"
    by blast
  then have "deleteBlock ''1'' ?S = Some s' \<and> map fst (codeMap s') = [''2''] \<and> arrows s' = []
     \<and> history s' = [snapshotState ?S, snapshotState s'] \<and> historyIndex s' = 1"
    unfolding k a h by (simp add: exampleArrow_def)
  then have e: "\<exists>s'. deleteBlock ''1'' ?S = Some s' \<and> map fst (codeMap s') = [''2'']
     \<and> arrows s' = [] \<and> history s' = [snapshotState ?S, snapshotState s']
     \<and> historyIndex s' = 1"
    by (rule exI)
  show ?thesis by (rule conjI [OF p]) (rule conjI [OF i], rule e)
qed

section \<open>Anchors\<close>




section \<open>What the handlers leave alone\<close>






lemma selectArrow_other [simp]:
  "codeMap (selectArrow i s) = codeMap s"
  "codeBlocks (selectArrow i s) = codeBlocks s"
  "isApplyingHistory (selectArrow i s) = isApplyingHistory s"
  "history (selectArrow i s) = history s"
  "historyIndex (selectArrow i s) = historyIndex s"
  by (simp_all add: selectArrow_def Let_def)

definition exampleDrawing :: state where
  "exampleDrawing =
     (arrowToolClick (initial (exampleDocument [''1'', ''2''] [])))
       \<lparr>arrowStart := Some \<lparr>anchor_block = ''1'', anchor_x = 63, anchor_y = 138\<rparr>\<rparr>"

lemma exampleDrawing_simps:
  "arrowStart exampleDrawing = Some \<lparr>anchor_block = ''1'', anchor_x = 63, anchor_y = 138\<rparr>"
  "arrowMode exampleDrawing = True"
  "editingArrowEndpoint exampleDrawing = None"
  "isApplyingHistory exampleDrawing = False"
  "arrows exampleDrawing = []"
  "map fst (codeBlocks exampleDrawing) = [''1'', ''2'']"
  "map fst (codeMap exampleDrawing) = [''1'', ''2'']"
  "history exampleDrawing = [snapshotState (initial (exampleDocument [''1'', ''2''] []))]"
  "historyIndex exampleDrawing = 0"
  by (simp_all add: exampleDrawing_def arrowToolClick_def initial_def declared_def
        recordSnapshot_def loadCodeBlocks_def Let_def exampleDocument_def snapshotState_def)

section \<open>Degenerate arrows\<close>

text \<open>
  C7. While a start anchor \<open>a\<close> is pending, a click that resolves to the same block and
  the same offsets is ignored by \<open>handleLineContentClick\<close>, and so by the canvas click
  listener in arrow mode: the result is the state as it was, hence the same arrow
  list, the same history and nothing saved. (No other code path appends an arrow.)
\<close>

theorem degenerate_arrow_rejected:
  assumes start: "arrowStart s = Some a" and nonempty: "anchor_block a \<noteq> []"
    and click: "getOffsetsFromClick v (anchor_block a) clientX clientY =
                  Some (anchor_x a, anchor_y a)"
  shows "handleLineContentClick v (Some (anchor_block a)) clientX clientY s = Some s
     \<and> (arrowMode s \<and> editingArrowEndpoint s = None \<longrightarrow>
          canvasClick v (LineContent (Some (anchor_block a))) clientX clientY s = Some s)"
  using assms by (simp add: handleLineContentClick_def canvasClick_def or0_def)


text \<open>
  In arrow mode, with the start anchor (63, 138) of block 1 pending, the click at
  (100, 200) resolves to that anchor again and changes nothing.
\<close>

theorem degenerate_arrow_rejected_witness:
  "arrowStart exampleDrawing = Some \<lparr>anchor_block = ''1'', anchor_x = 63, anchor_y = 138\<rparr>
   \<and> getOffsetsFromClick exampleView ''1'' 100 200 = Some (63, 138)
   \<and> arrowMode exampleDrawing \<and> editingArrowEndpoint exampleDrawing = None
   \<and> handleLineContentClick exampleView (Some ''1'') 100 200 exampleDrawing = Some exampleDrawing
   \<and> canvasClick exampleView (LineContent (Some ''1'')) 100 200 exampleDrawing
        = Some exampleDrawing"
proof -
  let ?a = "\<lparr>anchor_block = ''1'', anchor_x = 63, anchor_y = 138\<rparr>"
  have st: "arrowStart exampleDrawing = Some ?a" by (simp add: exampleDrawing_simps)
  have ne: "anchor_block ?a \<noteq> []" by simp
  have cl: "getOffsetsFromClick exampleView (anchor_block ?a) 100 200
              = Some (anchor_x ?a, anchor_y ?a)"
    by (simp add: getOffsetsFromClick_def exampleView_def)
  from degenerate_arrow_rejected [OF st ne cl] st cl
  show ?thesis by (simp add: exampleDrawing_simps)
qed

section \<open>Selecting an arrow\<close>

text \<open>
  C10, as the code has it. For an index in range, \<open>selectArrow\<close> changes the selection
  and the colour panel only (selected index, endpoint editing, panel colour and alpha)
  and leaves the block map and the arrows as they are, except when the arrow's
  \<open>color\<close> is falsy, that is missing or the empty string: then the panel colour is
  written into that arrow. Nothing is appended to the history and nothing is saved.
\<close>

theorem selectArrow_frame:
  assumes "0 \<le> i" "i < int (length (arrows s))"
  shows "selectArrow i s =
           s\<lparr>selectedArrowIndex := i, editingArrowEndpoint := None,
             currentArrowColor := currentArrowColor (selectArrow i s),
             currentArrowAlpha := currentArrowAlpha (selectArrow i s),
             arrows := arrows (selectArrow i s)\<rparr>
     \<and> arrows (selectArrow i s) =
          (if truthy (color (arrows s ! nat i)) then arrows s
           else (arrows s)[nat i := (arrows s ! nat i)\<lparr>color := Some (currentArrowColor s)\<rparr>])
     \<and> codeMap (selectArrow i s) = codeMap s
     \<and> pageName (selectArrow i s) = pageName s
     \<and> history (selectArrow i s) = history s
     \<and> historyIndex (selectArrow i s) = historyIndex s
     \<and> saved (selectArrow i s) = saved s"
  using assms by (simp add: selectArrow_def Let_def)



text \<open>
  Two arrows, the second without a colour: selecting the first changes no arrow,
  selecting the second writes the panel colour into it; the history stays.
\<close>

theorem selectArrow_frame_witness:
  "(0::int) \<le> 1
   \<and> 1 < int (length (arrows (initial (exampleDocument [''1'', ''2'']
            [exampleArrow ''1'' ''2'', (exampleArrow ''2'' ''1'')\<lparr>color := None\<rparr>]))))
   \<and> arrows (selectArrow 1 (initial (exampleDocument [''1'', ''2'']
            [exampleArrow ''1'' ''2'', (exampleArrow ''2'' ''1'')\<lparr>color := None\<rparr>])))
       = [exampleArrow ''1'' ''2'', (exampleArrow ''2'' ''1'')\<lparr>color := Some ''#007acc''\<rparr>]
   \<and> history (selectArrow 1 (initial (exampleDocument [''1'', ''2'']
            [exampleArrow ''1'' ''2'', (exampleArrow ''2'' ''1'')\<lparr>color := None\<rparr>])))
       = history (initial (exampleDocument [''1'', ''2'']
            [exampleArrow ''1'' ''2'', (exampleArrow ''2'' ''1'')\<lparr>color := None\<rparr>]))
   \<and> saved (selectArrow 1 (initial (exampleDocument [''1'', ''2'']
            [exampleArrow ''1'' ''2'', (exampleArrow ''2'' ''1'')\<lparr>color := None\<rparr>]))) = []"
proof -
  let ?S = "initial (exampleDocument [''1'', ''2'']
            [exampleArrow ''1'' ''2'', (exampleArrow ''2'' ''1'')\<lparr>color := None\<rparr>])"
  have a: "arrows ?S = [exampleArrow ''1'' ''2'', (exampleArrow ''2'' ''1'')\<lparr>color := None\<rparr>]"
    by (simp add: initial_simps exampleDocument_def)
  have c: "currentArrowColor ?S = ''#007acc''"
    by (simp add: initial_def declared_def recordSnapshot_def loadCodeBlocks_def Let_def)
  have sv: "saved ?S = []" by (simp add: initial_simps)
  have r: "(0::int) \<le> 1" "1 < int (length (arrows ?S))" by (simp_all add: a)
  from selectArrow_frame [OF r] have
    "arrows (selectArrow 1 ?S) =
       (if truthy (color (arrows ?S ! nat 1)) then arrows ?S
        else (arrows ?S)[nat 1 := (arrows ?S ! nat 1)\<lparr>color := Some (currentArrowColor ?S)\<rparr>])"
    "history (selectArrow 1 ?S) = history ?S" "saved (selectArrow 1 ?S) = saved ?S"
    by blast+
  then have "arrows (selectArrow 1 ?S) =
       [exampleArrow ''1'' ''2'', (exampleArrow ''2'' ''1'')\<lparr>color := Some ''#007acc''\<rparr>]"
    "history (selectArrow 1 ?S) = history ?S" "saved (selectArrow 1 ?S) = []"
    unfolding a c sv by (simp_all add: truthy_def)
  with r show ?thesis by simp
qed

text \<open>
  C10 as stated fails for an arrow that has a \<open>color\<close> field holding the empty string:
  the field is there, and selecting the arrow overwrites it with the panel colour.
\<close>

theorem selectArrow_empty_color_counterexample:
  "color (arrows (initial (exampleDocument [''1'', ''2'']
            [(exampleArrow ''1'' ''2'')\<lparr>color := Some []\<rparr>])) ! 0) = Some []
   \<and> arrows (selectArrow 0 (initial (exampleDocument [''1'', ''2'']
            [(exampleArrow ''1'' ''2'')\<lparr>color := Some []\<rparr>])))
       = [(exampleArrow ''1'' ''2'')\<lparr>color := Some ''#007acc''\<rparr>]
   \<and> arrows (selectArrow 0 (initial (exampleDocument [''1'', ''2'']
            [(exampleArrow ''1'' ''2'')\<lparr>color := Some []\<rparr>])))
       \<noteq> arrows (initial (exampleDocument [''1'', ''2'']
            [(exampleArrow ''1'' ''2'')\<lparr>color := Some []\<rparr>]))"
  by (simp add: selectArrow_def Let_def truthy_def initial_def declared_def recordSnapshot_def
        loadCodeBlocks_def exampleDocument_def exampleArrow_def)

section \<open>Arrow mode\<close>


lemma loadCodeBlocks_arrowMode [simp]:
  "arrowMode (loadCodeBlocks s) = arrowMode s" "arrowStart (loadCodeBlocks s) = arrowStart s"
  by (simp_all add: loadCodeBlocks_def Let_def)

lemma selectArrow_arrowMode [simp]:
  "arrowMode (selectArrow i s) = arrowMode s" "arrowStart (selectArrow i s) = arrowStart s"
  by (simp_all add: selectArrow_def Let_def)












lemma updateMessage_arrowMode [simp]: "arrowMode (updateMessage d s) = arrowMode s"
  by (simp add: updateMessage_def recordSnapshot_def Let_def)







section \<open>Documents that rendering leaves as they are\<close>

text \<open>
  \<open>loadCodeBlocks\<close> followed by \<open>saveData\<close> rewrites a block: a missing name is filled
  in and the geometry is read back from the rendered element. A block is left as it is
  when it has a name and is at least as large as the style sheet's minimum, the
  invariant of the data model (\<open>w >= MIN_W\<close>, \<open>h >= MIN_H\<close>); the keys of a JavaScript
  object are distinct.
\<close>

definition stableBlock :: "block \<Rightarrow> bool" where
  "stableBlock b \<longleftrightarrow> name b \<noteq> None \<and> 300 \<le> block_w b \<and> 200 \<le> block_h b"

definition stableMap :: "codeMap \<Rightarrow> bool" where
  "stableMap m \<longleftrightarrow> distinct (map fst m) \<and> list_all (\<lambda>(k, b). stableBlock b) m"

lemma readback_stable:
  "stableBlock b \<Longrightarrow>
   b\<lparr>block_x := style_left (createCodeBlock b), block_y := style_top (createCodeBlock b),
     block_w := rect_width (createCodeBlock b), block_h := rect_height (createCodeBlock b)\<rparr> = b"
  by (simp add: stableBlock_def createCodeBlock_def rect_width_def rect_height_def max_def)

lemma defaultName_stable: "stableBlock b \<Longrightarrow> defaultName k b = b"
  by (auto simp: stableBlock_def defaultName_def)

lemma saveBlocks_stable:
  "distinct (map fst (p @ q)) \<Longrightarrow> list_all (\<lambda>(k, b). stableBlock b) q \<Longrightarrow>
   saveBlocks (map (\<lambda>(k, b). (k, createCodeBlock b)) q) (p @ q) = Some (p @ q)"
proof (induction q arbitrary: p)
  case Nil
  show ?case by simp
next
  case (Cons e q)
  obtain k b where e: "e = (k, b)" by (cases e)
  from Cons.prems(1) have notin: "k \<notin> fst ` set p" by (auto simp: e)
  then have look: "map_of (p @ (k, b) # q) k = Some b"
    by (simp add: map_add_def map_of_eq_None_iff [THEN iffD2] split: option.splits)
  from Cons.prems(2) have sb: "stableBlock b" and rest: "list_all (\<lambda>(k, b). stableBlock b) q"
    by (simp_all add: e)
  have upd: "AList.update k b (p @ (k, b) # q) = p @ (k, b) # q"
    by (rule update_triv [OF look])
  have "distinct (map fst ((p @ [(k, b)]) @ q))" using Cons.prems(1) by (simp add: e)
  from Cons.IH [OF this rest] show ?case
    by (simp del: map_of_append add: e look readback_stable [OF sb] upd)
qed

lemma loadCodeBlocks_stable:
  assumes "stableMap (codeMap s)"
  shows "codeMap (loadCodeBlocks s) = codeMap s"
    and "codeBlocks (loadCodeBlocks s) = map (\<lambda>(k, b). (k, createCodeBlock b)) (codeMap s)"
proof -
  have "map (\<lambda>(k, b). (k, defaultName k b)) (codeMap s) = codeMap s"
    using assms unfolding stableMap_def
    by (intro map_idI) (auto simp: list_all_iff defaultName_stable)
  then show "codeMap (loadCodeBlocks s) = codeMap s"
    and "codeBlocks (loadCodeBlocks s) = map (\<lambda>(k, b). (k, createCodeBlock b)) (codeMap s)"
    by (simp_all add: loadCodeBlocks_def Let_def)
qed

lemma saveData_stable:
  assumes "stableMap (codeMap s)"
  shows "saveData (loadCodeBlocks s) =
           Some ((loadCodeBlocks s)\<lparr>saved := saved s @ [snapshotState s]\<rparr>)"
proof -
  define L where "L = loadCodeBlocks s"
  have cm: "codeMap L = codeMap s"
    and cb: "codeBlocks L = map (\<lambda>(k, b). (k, createCodeBlock b)) (codeMap s)"
    unfolding L_def by (rule loadCodeBlocks_stable [OF assms])+
  have rest: "pageName L = pageName s" "arrows L = arrows s" "saved L = saved s"
    by (simp_all add: L_def loadCodeBlocks_def Let_def)
  have "saveBlocks (map (\<lambda>(k, b). (k, createCodeBlock b)) (codeMap s)) ([] @ codeMap s)
          = Some ([] @ codeMap s)"
    using assms unfolding stableMap_def by (intro saveBlocks_stable) simp_all
  then have sb: "saveBlocks (codeBlocks L) (codeMap L) = Some (codeMap L)"
    by (simp add: cm cb)
  have "saveData L = Some (L\<lparr>codeMap := codeMap L,
          saved := saved L @
            [\<lparr>page_name = pageName L, doc_codeMap = codeMap L, doc_arrows = arrows L\<rparr>]\<rparr>)"
    unfolding saveData_def sb by simp
  also have "\<dots> = Some (L\<lparr>saved := saved s @ [snapshotState s]\<rparr>)"
    by (simp add: rest cm snapshotState_def)
  finally show ?thesis unfolding L_def .
qed

lemma recordAndSave_stable:
  assumes "stableMap (codeMap s)" "\<not> isApplyingHistory s"
  shows "recordAndSave (loadCodeBlocks s) =
           Some (recordSnapshot ((loadCodeBlocks s)\<lparr>saved := saved s @ [snapshotState s]\<rparr>))"
proof -
  have "\<not> isApplyingHistory (loadCodeBlocks s)"
    using assms(2) by (simp add: loadCodeBlocks_def Let_def)
  then show ?thesis by (simp add: recordAndSave_def saveData_stable [OF assms(1)])
qed

lemma stableBlock_exampleBlock [simp]: "stableBlock (exampleBlock k)"
  by (simp add: stableBlock_def exampleBlock_def)

section \<open>Move to bottom\<close>

definition exampleTempClash :: state where
  "exampleTempClash = initial (exampleDocument [''1'', ''5'', ''1001''] [exampleArrow ''1001'' ''1''])"

lemma exampleTempClash_simps:
  "codeMap exampleTempClash =
     [(''1'', exampleBlock ''1''), (''5'', exampleBlock ''5''), (''1001'', exampleBlock ''1001'')]"
  "arrows exampleTempClash = [exampleArrow ''1001'' ''1'']"
  "isApplyingHistory exampleTempClash = False"
  by (simp_all add: exampleTempClash_def initial_simps exampleDocument_def)

lemma exampleTempClash_ids: "getNumericIds [(''1'', exampleBlock ''1''), (''5'', exampleBlock ''5''), (''1001'', exampleBlock ''1001'')] = [1, 5, 1001]"
  by (simp add: getNumericIds_def numericOnly_def isDigit_def parseInt_def digitValue_def)

lemma js_String_examples: "js_String 1001 = ''1001''" "js_String (Suc 0) = ''1''" "js_String (Suc (Suc 0)) = ''2''"
  by (simp_all add: js_String.simps digitChar_def)

lemma retarget_exampleArrow:
  "retarget a b (exampleArrow x y) = exampleArrow (if x = a then b else x) (if y = a then b else y)"
  by (simp add: retarget_def retargetAnchor_def exampleArrow_def)

lemma exampleTempClash_core:
  "moveBlockToBottom ''5'' exampleTempClash =
     recordAndSave (loadCodeBlocks
       (exampleTempClash\<lparr>codeMap := [(''2'', exampleBlock ''1''), (''1'', exampleBlock ''5'')],
                          arrows := [exampleArrow ''1'' ''2'']\<rparr>))"
proof -
  have n: "numericOnly ''5''" "parseInt ''5'' = 5"
    by (simp_all add: numericOnly_def isDigit_def parseInt_def digitValue_def)
  show ?thesis
    by (simp add: moveBlockToBottom_def exampleTempClash_simps exampleTempClash_ids n Let_def js_String_examples retarget_exampleArrow)
qed


text \<open>
  C4. \<open>moveBlockToBottom\<close> parks the moved block under \<open>String(minId + 1000)\<close>, which
  the source comments as a number large enough not to clash. With the blocks 1, 5 and
  1001 and an arrow from block 1001 to block 1, moving block 5 to the bottom parks it
  under the id 1001, on top of the block that is there: afterwards the map holds block 5
  under 1 and block 1 under 2, block 1001 is gone, and its arrow starts at the moved
  block.
\<close>

theorem moveBlockToBottom_temp_id_collides:
  "map_of (codeMap exampleTempClash) ''1001'' = Some (exampleBlock ''1001'')
   \<and> getNumericIds (codeMap exampleTempClash) = [1, 5, 1001]
   \<and> js_String (1 + 1000) = ''1001''
   \<and> map_option codeMap (moveBlockToBottom ''5'' exampleTempClash)
     = Some [(''2'', exampleBlock ''1''), (''1'', exampleBlock ''5'')]
   \<and> map_option arrows (moveBlockToBottom ''5'' exampleTempClash)
     = Some [exampleArrow ''1'' ''2'']"
proof -
  let ?s = "exampleTempClash\<lparr>codeMap := [(''2'', exampleBlock ''1''), (''1'', exampleBlock ''5'')],
                          arrows := [exampleArrow ''1'' ''2'']\<rparr>"
  have st: "stableMap (codeMap ?s)" by (simp add: stableMap_def)
  have idle: "\<not> isApplyingHistory ?s" by (simp add: exampleTempClash_simps)
  show ?thesis
    unfolding exampleTempClash_core recordAndSave_stable [OF st idle]
    by (simp add: recordSnapshot_def loadCodeBlocks_def Let_def exampleTempClash_simps
          exampleTempClash_ids js_String_examples)
qed

section \<open>Move to top\<close>

text \<open>
  The renumbering is stated for documents whose numeric ids are in canonical form
  (\<open>String(parseInt(id)) = id\<close>, as every id the allocator hands out is), so that the
  ids the code rebuilds with \<open>String\<close> are the keys they came from. \<open>largerIds\<close> and
  \<open>maxId\<close> are the local constants of \<open>moveBlockToTop\<close>; \<open>topMoves\<close> is its list
  \<open>moves\<close> and \<open>topResult\<close> the block map after its deletions and insertions.
\<close>

definition canonicalIds :: "codeMap \<Rightarrow> bool" where
  "canonicalIds m \<longleftrightarrow> list_all (\<lambda>(k, b). numericOnly k \<longrightarrow> js_String (parseInt k) = k) m"

lemma map_of_deleteMoves:
  "map_of (deleteMoves ms m) k = (if k \<in> fst ` set ms then None else map_of m k)"
proof (induction ms arbitrary: m)
  case Nil
  show ?case by (simp add: deleteMoves_def)
next
  case (Cons x ms)
  obtain f t d where x: "x = (f, t, d)" by (cases x)
  have "deleteMoves (x # ms) m = deleteMoves ms (AList.delete f m)"
    by (simp add: deleteMoves_def x)
  then show ?case using Cons.IH [of "AList.delete f m"]
    by (auto simp: x delete_conv')
qed

lemma map_of_insertMoves:
  "map_of (insertMoves ms m) k =
     (case map_of (rev (map (\<lambda>(f, t, d). (t, d)) ms)) k of
        Some d \<Rightarrow> Some d | None \<Rightarrow> map_of m k)"
proof (induction ms arbitrary: m)
  case Nil
  show ?case by (simp add: insertMoves_def)
next
  case (Cons x ms)
  obtain f t d where x: "x = (f, t, d)" by (cases x)
  have "insertMoves (x # ms) m = insertMoves ms (AList.update t d m)"
    by (simp add: insertMoves_def x)
  then show ?case using Cons.IH [of "AList.update t d m"]
    by (simp add: x update_conv' map_add_def split: option.splits)
qed








lemma above_nth:
  "sorted xs \<Longrightarrow> distinct xs \<Longrightarrow> \<forall>x \<in> set xs. c < x \<Longrightarrow> j < length xs \<Longrightarrow>
   c + j < (xs ! j :: nat)"
proof (induction xs arbitrary: c j)
  case Nil
  then show ?case by simp
next
  case (Cons x xs)
  show ?case
  proof (cases j)
    case 0
    then show ?thesis using Cons.prems by simp
  next
    case (Suc j')
    have "\<forall>y \<in> set xs. x < y" using Cons.prems(1,2) by (auto simp: le_less)
    moreover have "c < x" using Cons.prems(3) by simp
    ultimately have "\<forall>y \<in> set xs. Suc c < y" by auto
    from Cons.IH [OF _ _ this, of j'] Cons.prems Suc show ?thesis by simp
  qed
qed


lemma map_of_rev_distinct: "distinct (map fst xs) \<Longrightarrow> map_of (rev xs) = map_of xs"
  by (subst map_of_inject_set) (simp_all add: rev_map [symmetric])

lemma canonical_key:
  "canonicalIds m \<Longrightarrow> k \<in> fst ` set m \<Longrightarrow> numericOnly k \<Longrightarrow> js_String (parseInt k) = k"
  by (auto simp: canonicalIds_def list_all_iff)

lemma getNumericIds_set:
  "set (getNumericIds m) = parseInt ` {k \<in> fst ` set m. numericOnly k}"
  by (auto simp: getNumericIds_def)

lemma getNumericIds_sorted [simp]: "sorted (getNumericIds m)"
  by (simp add: getNumericIds_def)

lemma getNumericIds_distinct:
  assumes "distinct (map fst m)" "canonicalIds m"
  shows "distinct (getNumericIds m)"
proof -
  have "inj_on parseInt (set (filter numericOnly (map fst m)))"
  proof (rule inj_onI)
    fix a b
    assume "a \<in> set (filter numericOnly (map fst m))" "b \<in> set (filter numericOnly (map fst m))"
      "parseInt a = parseInt b"
    then have a: "a \<in> fst ` set m" "numericOnly a" and b: "b \<in> fst ` set m" "numericOnly b"
      and eq: "parseInt a = parseInt b" by auto
    have "js_String (parseInt a) = a" by (rule canonical_key [OF assms(2) a])
    moreover have "js_String (parseInt b) = b" by (rule canonical_key [OF assms(2) b])
    ultimately show "a = b" using eq by metis
  qed
  then show ?thesis using assms(1) by (simp add: getNumericIds_def distinct_map)
qed

lemma getNumericIds_present:
  assumes "canonicalIds m" "i \<in> set (getNumericIds m)"
  shows "map_of m (js_String i) \<noteq> None"
proof -
  from assms(2) obtain k where k: "k \<in> fst ` set m" "numericOnly k" "i = parseInt k"
    by (auto simp: getNumericIds_set)
  then have "js_String i = k" using canonical_key [OF assms(1), of k] by metis
  with k(1) show ?thesis by (simp add: map_of_eq_None_iff)
qed


definition largerIds :: "codeMap \<Rightarrow> string \<Rightarrow> nat list" where
  "largerIds m blockId = filter (\<lambda>i. i > parseInt blockId) (getNumericIds m)"

definition smallerIds :: "codeMap \<Rightarrow> string \<Rightarrow> nat list" where
  "smallerIds m blockId = filter (\<lambda>i. i < parseInt blockId) (getNumericIds m)"

definition maxId :: "codeMap \<Rightarrow> nat" where
  "maxId m = last (getNumericIds m)"

definition topMoves :: "codeMap \<Rightarrow> string \<Rightarrow> move list" where
  "topMoves m blockId =
     (blockId, js_String (maxId m), the (map_of m blockId)) #
     map (\<lambda>(j, i). (js_String i, js_String (parseInt blockId + j), the (map_of m (js_String i))))
       (enumerate 0 (largerIds m blockId))"

lemma enumerate_map_zip:
  "map (\<lambda>(j, i). (p j, q i)) (enumerate 0 xs) = zip (map p [0..<length xs]) (map q xs)"
  by (simp add: enumerate_eq_zip zip_map_map)

lemma topMoves_froms:
  "map fst (topMoves m blockId) = blockId # map js_String (largerIds m blockId)"
proof -
  have "map fst (map (\<lambda>(j, i). (js_String i, js_String (parseInt blockId + j),
          the (map_of m (js_String i)))) (enumerate 0 (largerIds m blockId)))
        = map js_String (largerIds m blockId)"
    by (rule nth_equalityI) (simp_all add: nth_enumerate_eq)
  then show ?thesis by (simp add: topMoves_def)
qed

lemma topMoves_tds:
  "map (\<lambda>(f, t, d). (t, d)) (topMoves m blockId) =
     (js_String (maxId m), the (map_of m blockId)) #
     zip (map (\<lambda>j. js_String (parseInt blockId + j)) [0..<length (largerIds m blockId)])
         (map (\<lambda>i. the (map_of m (js_String i))) (largerIds m blockId))"
  by (simp add: topMoves_def comp_def case_prod_unfold flip: enumerate_map_zip)





lemma largerIds_props:
  assumes dist: "distinct (map fst m)" and can: "canonicalIds m"
  shows "sorted (largerIds m blockId)" "distinct (largerIds m blockId)"
    "\<forall>i \<in> set (largerIds m blockId). parseInt blockId < i"
    "\<forall>i \<in> set (largerIds m blockId). i \<le> maxId m"
    "\<forall>i \<in> set (largerIds m blockId). map_of m (js_String i) \<noteq> None"
proof -
  show "sorted (largerIds m blockId)" using sorted_filter [of id "getNumericIds m"] by (simp add: largerIds_def)
  show "distinct (largerIds m blockId)"
    using getNumericIds_distinct [OF dist can] by (simp add: largerIds_def)
  show "\<forall>i \<in> set (largerIds m blockId). parseInt blockId < i" by (simp add: largerIds_def)
  show "\<forall>i \<in> set (largerIds m blockId). i \<le> maxId m"
  proof
    fix i assume "i \<in> set (largerIds m blockId)"
    then have i: "i \<in> set (getNumericIds m)" by (simp add: largerIds_def)
    then obtain j where j: "j < length (getNumericIds m)" "getNumericIds m ! j = i"
      by (auto simp: in_set_conv_nth)
    then have "getNumericIds m ! j \<le> getNumericIds m ! (length (getNumericIds m) - 1)"
      by (intro sorted_nth_mono) auto
    with j i show "i \<le> maxId m" by (cases "getNumericIds m = []") (auto simp: maxId_def last_conv_nth)
  qed
  show "\<forall>i \<in> set (largerIds m blockId). map_of m (js_String i) \<noteq> None"
    using getNumericIds_present [OF can] by (auto simp: largerIds_def)
qed

lemma slot_below_max:
  assumes dist: "distinct (map fst m)" and can: "canonicalIds m"
    and j: "j < length (largerIds m blockId)"
  shows "parseInt blockId + j < largerIds m blockId ! j" "parseInt blockId + j < maxId m"
proof -
  note p = largerIds_props [OF dist can, of blockId]
  show a: "parseInt blockId + j < largerIds m blockId ! j"
    by (rule above_nth [OF p(1) p(2) p(3) j])
  have "largerIds m blockId ! j \<le> maxId m" using p(4) j by simp
  with a show "parseInt blockId + j < maxId m" by simp
qed

lemma topMoves_tos_distinct:
  assumes dist: "distinct (map fst m)" and can: "canonicalIds m"
  shows "distinct (js_String (maxId m) #
           map (\<lambda>j. js_String (parseInt blockId + j)) [0..<length (largerIds m blockId)])"
proof -
  have "inj_on (\<lambda>j. js_String (parseInt blockId + j)) (set [0..<length (largerIds m blockId)])"
    by (rule inj_onI) (auto dest: js_String_inject)
  then have "distinct (map (\<lambda>j. js_String (parseInt blockId + j))
               [0..<length (largerIds m blockId)])"
    by (simp add: distinct_map)
  moreover have "js_String (maxId m) \<notin>
      set (map (\<lambda>j. js_String (parseInt blockId + j)) [0..<length (largerIds m blockId)])"
  proof
    assume "js_String (maxId m) \<in>
      set (map (\<lambda>j. js_String (parseInt blockId + j)) [0..<length (largerIds m blockId)])"
    then obtain j where "j < length (largerIds m blockId)"
      "js_String (maxId m) = js_String (parseInt blockId + j)" by auto
    then show False using slot_below_max(2) [OF dist can, of j blockId]
      by (auto dest: js_String_inject)
  qed
  ultimately show ?thesis by simp
qed



lemma map_of_zip_notin: "k \<notin> set ks \<Longrightarrow> map_of (zip ks vs) k = None"
  by (auto simp: map_of_eq_None_iff dest: set_zip_leftD)

definition topResult :: "codeMap \<Rightarrow> string \<Rightarrow> codeMap" where
  "topResult m blockId =
     insertMoves (topMoves m blockId) (deleteMoves (topMoves m blockId) m)"

lemma topResult_lookup:
  assumes dist: "distinct (map fst m)" and can: "canonicalIds m"
  shows "map_of (topResult m blockId) k =
     (case map_of ((js_String (maxId m), the (map_of m blockId)) #
             zip (map (\<lambda>j. js_String (parseInt blockId + j)) [0..<length (largerIds m blockId)])
                 (map (\<lambda>i. the (map_of m (js_String i))) (largerIds m blockId))) k of
        Some d \<Rightarrow> Some d
      | None \<Rightarrow> if k \<in> set (blockId # map js_String (largerIds m blockId)) then None
                else map_of m k)"
proof -
  have "map fst (map (\<lambda>(f, t, d). (t, d)) (topMoves m blockId)) =
          js_String (maxId m) #
          map (\<lambda>j. js_String (parseInt blockId + j)) [0..<length (largerIds m blockId)]"
    unfolding topMoves_tds by simp
  then have d: "distinct (map fst (map (\<lambda>(f, t, d). (t, d)) (topMoves m blockId)))"
    using topMoves_tos_distinct [OF dist can, of blockId] by (simp only:)
  have fr: "fst ` set (topMoves m blockId) = set (blockId # map js_String (largerIds m blockId))"
    using topMoves_froms [of m blockId] by (metis set_map)
  have "map_of (topResult m blockId) k =
     (case map_of (rev (map (\<lambda>(f, t, d). (t, d)) (topMoves m blockId))) k of
        Some d \<Rightarrow> Some d
      | None \<Rightarrow> if k \<in> fst ` set (topMoves m blockId) then None else map_of m k)"
    unfolding topResult_def map_of_insertMoves map_of_deleteMoves ..
  then have "map_of (topResult m blockId) k =
     (case map_of (map (\<lambda>(f, t, d). (t, d)) (topMoves m blockId)) k of
        Some d \<Rightarrow> Some d
      | None \<Rightarrow> if k \<in> fst ` set (topMoves m blockId) then None else map_of m k)"
    by (simp only: map_of_rev_distinct [OF d])
  then show ?thesis unfolding fr topMoves_tds .
qed




lemma topResult_vacated:
  assumes dist: "distinct (map fst m)" and can: "canonicalIds m"
    and i: "i \<in> set (largerIds m blockId)" "parseInt blockId + length (largerIds m blockId) \<le> i"
      "i \<noteq> maxId m"
  shows "map_of (topResult m blockId) (js_String i) = None"
proof -
  let ?L = "largerIds m blockId"
  let ?ks = "map (\<lambda>j. js_String (parseInt blockId + j)) [0..<length ?L]"
  let ?vs = "map (\<lambda>i. the (map_of m (js_String i))) ?L"
  have "js_String i \<notin> set ?ks"
  proof
    assume "js_String i \<in> set ?ks"
    then obtain j where "j < length ?L" "js_String i = js_String (parseInt blockId + j)" by auto
    then have "i = parseInt blockId + j" "j < length ?L" by (auto dest: js_String_inject)
    with i(2) show False by simp
  qed
  then have z: "map_of (zip ?ks ?vs) (js_String i) = None"
    by (rule map_of_zip_notin)
  have m: "js_String i \<noteq> js_String (maxId m)" using i(3) by (auto dest: js_String_inject)
  have look: "map_of ((js_String (maxId m), the (map_of m blockId)) # zip ?ks ?vs) (js_String i)
                = None"
    using z m by simp
  have fr: "js_String i \<in> set (blockId # map js_String ?L)" using i(1) by simp
  show ?thesis
    unfolding topResult_lookup [OF dist can] look using fr by simp
qed





















section \<open>Undo and redo\<close>

text \<open>
  What the loop of \<open>saveData\<close> writes into a block's record: the position and the size
  of its element, as \<open>getBoundingClientRect\<close> reports them.
\<close>

definition readBack :: "element \<Rightarrow> block \<Rightarrow> block" where
  "readBack e b = b\<lparr>block_x := style_left e, block_y := style_top e,
                    block_w := rect_width e, block_h := rect_height e\<rparr>"

lemma readBack_twice [simp]: "readBack e2 (readBack e1 b) = readBack e2 b"
  by (simp add: readBack_def)






definition mutate :: "(state \<Rightarrow> state) \<Rightarrow> state \<Rightarrow> state option" where
  "mutate f s = recordAndSave (f s)"
























definition removeBlock :: "string \<Rightarrow> state \<Rightarrow> state" where
  "removeBlock blockName s =
     loadCodeBlocks
       (s\<lparr>codeMap := AList.delete blockName (codeMap s),
          arrows := filter (\<lambda>a. anchor_block (arrow_from a) \<noteq> blockName \<and>
                                 anchor_block (arrow_to a) \<noteq> blockName) (arrows s)\<rparr>)"


lemma deleteBlock_mutate:
  "map_of (codeMap s) blockName \<noteq> None \<Longrightarrow>
   deleteBlock blockName s = mutate (removeBlock blockName) s"
  by (auto simp: deleteBlock_def mutate_def removeBlock_def)








end
